theory Spec2Isabelle
  imports Main "HOL-Library.Word"
begin

section \<open>Data model of the spark messaging layer\<close>

text \<open>
  The development embeds \<^verbatim>\<open>Service.cpp\<close> (\<^verbatim>\<open>Service::send\<close>,
  \<^verbatim>\<open>send_tracked\<close>, \<^verbatim>\<open>broadcast\<close>, \<^verbatim>\<open>shutdown\<close>) and
  the source of \<^verbatim>\<open>CoreHandler\<close> (the heartbeat handler). Every handler runs under the
  handler's mutex or on the single event loop, so each one is an atomic step on an
  explicit state.
\<close>

type_synonym u64 = "64 word"
type_synonym uuid_t = "128 word"

text \<open>
  The generated flatbuffers enumerations \<^verbatim>\<open>messaging::Service\<close> and
  \<^verbatim>\<open>messaging::Data\<close>. The source names \<^verbatim>\<open>Service_Core\<close>,
  \<^verbatim>\<open>Service_Tracking\<close>, \<^verbatim>\<open>Data_Ping\<close> and \<^verbatim>\<open>Data_Pong\<close>; every
  other enumerator is kept as a numbered alternative. A Ping and a Pong carry one
  unsigned 64-bit millisecond timestamp (\<^verbatim>\<open>send_pong\<close> takes it as
  \<^verbatim>\<open>std::uint64_t\<close>).
\<close>

datatype messaging_Service = Service_Core | Service_Tracking | Service_Other nat

datatype messaging_Data = Data_Ping u64 | Data_Pong u64 | Data_Other nat

text \<open>
  \<^verbatim>\<open>messaging::MessageRoot\<close> as built by
  \<^verbatim>\<open>CreateMessageRoot(fbb, service, tracking, data_type, data)\<close>: the service
  tag, the optional tracking id (offset 0 is an absent one), and the data union
  (\<^verbatim>\<open>data_type()\<close> and \<^verbatim>\<open>data()\<close> together). A \<^verbatim>\<open>BufferHandler\<close> is
  a shared pointer to a finished builder, that is, to one such message.
\<close>

record MessageRoot =
  service :: messaging_Service
  tracking_id :: "uuid_t option"
  data :: messaging_Data

type_synonym BufferHandler = MessageRoot

text \<open>
  A \<^verbatim>\<open>NetworkSession\<close> is the transport of one connection. The core only calls
  \<^verbatim>\<open>write\<close> on it, so a session is the queue of messages handed to it, oldest
  first.
\<close>

type_synonym NetworkSession = "MessageRoot list"

text \<open>
  \<^verbatim>\<open>struct Link\<close>: the connection's uuid, its description and the
  \<^verbatim>\<open>std::weak_ptr<NetworkSession>\<close>. The weak pointer is \<open>None\<close> when it is
  empty (as in the service's own \<^verbatim>\<open>link_\<close>, built from a uuid and a description
  only) and otherwise the address of the session it was made from; whether that
  session is still alive is decided by the store of live sessions, not by the Link.
\<close>

record Link =
  uuid :: uuid_t
  description :: string
  net :: "nat option"

text \<open>
  Modelled from the spec: \<^verbatim>\<open>operator==\<close> on Links is declared in
  \<^verbatim>\<open>spark/Link.h\<close>, which is not among the sources. The specification fixes it:
  "Equality and hashing by id only".
\<close>

definition Link_eq :: "Link \<Rightarrow> Link \<Rightarrow> bool" where
  "Link_eq a b = (uuid a = uuid b)"

text \<open>
  Modelled from the spec: the enumeration \<^verbatim>\<open>Service::Result\<close> is declared in
  \<^verbatim>\<open>spark/Service.h\<close>, which is not among the sources. The code uses
  \<^verbatim>\<open>Result::OK\<close> and \<^verbatim>\<open>Result::LINK_GONE\<close>; the specification's error
  taxonomy adds \<open>DuplicateCorrelation\<close>.
\<close>

datatype Result = OK | LINK_GONE | DUPLICATE_CORRELATION

text \<open>
  Modelled from the spec: \<^verbatim>\<open>LinkState\<close> and the role \<^verbatim>\<open>Mode\<close> are declared in
  headers that are not among the sources. The specification gives the link states
  UP and DOWN (the code names \<^verbatim>\<open>LinkState::LINK_UP\<close>) and the roles CLIENT, SERVER
  and BOTH.
\<close>

datatype LinkState = LINK_UP | LINK_DOWN

datatype Mode = CLIENT | SERVER | BOTH

text \<open>
  C++ exceptions that can travel through the modelled functions. \<^verbatim>\<open>Service::send\<close>
  has a handler for \<^verbatim>\<open>std::out_of_range\<close> only; anything else would leave it.
\<close>

datatype exn = Out_of_range | Other_exception

text \<open>
  \<^verbatim>\<open>boost::system::error_code\<close>: zero is success, and a cancelled wait completes
  with \<^verbatim>\<open>boost::asio::error::operation_aborted\<close> (\<^verbatim>\<open>ECANCELED\<close>).
\<close>

type_synonym error_code = int

definition success :: error_code where
  "success = 0"

definition operation_aborted :: error_code where
  "operation_aborted = 125"

text \<open>
  The state of a \<^verbatim>\<open>boost::asio::deadline_timer\<close> with at most one outstanding
  \<^verbatim>\<open>async_wait\<close>: either a wait is pending or none is.
\<close>

datatype timer_state = Idle | Waiting

text \<open>
  Modelled from the spec: a \<open>PendingRequest\<close> of the TrackingService
  (\<^verbatim>\<open>TrackingService.cpp\<close> is not among the sources): the target link, the
  callback (an opaque handle here) and the timeout in seconds.
\<close>

record Request =
  req_link :: Link
  req_handler :: nat
  req_timeout :: nat

text \<open>What the source writes to its logger, one constructor per log statement.\<close>

datatype log_record =
    Debug_ping_time u64            \<comment> \<open>\<^verbatim>\<open>"[spark] Ping time: " << n << "ms"\<close>\<close>
  | Warn_unhandled_message uuid_t  \<comment> \<open>\<^verbatim>\<open>"[spark] Unhandled message received by core from " << uuid\<close>\<close>
  | Debug_shutting_down            \<comment> \<open>\<^verbatim>\<open>"[spark] Service shutting down..."\<close>\<close>

text \<open>
  The state the modelled member functions read and write:
  \<^item> \<open>sessions\<close>: the live \<^verbatim>\<open>NetworkSession\<close> objects by address (the
    \<^verbatim>\<open>SessionManager\<close> owns them); a \<^verbatim>\<open>weak_ptr\<close> locks exactly when its
    address is in this store;
  \<^item> \<open>services\<close>: the \<^verbatim>\<open>ServicesMap\<close>, one entry per advertised service;
  \<^item> \<open>handlers\<close>: the pending requests of the \<^verbatim>\<open>TrackingService\<close>;
  \<^item> \<open>peers\<close>: \<^verbatim>\<open>CoreHandler::peers_\<close>, front first;
  \<^item> \<open>timer\<close> and \<open>ready\<close>: \<^verbatim>\<open>CoreHandler::timer_\<close> and the completions of
    its waits that the \<^verbatim>\<open>io_service\<close> has queued and not yet run;
  \<^item> \<open>steady_clock\<close> and \<open>reads\<close>: the successive readings of
    \<^verbatim>\<open>steady_clock::now()\<close> in milliseconds and how many have been taken;
  \<^item> \<open>log_lines\<close>: what was written to the logger.
\<close>

record state =
  sessions :: "nat \<rightharpoonup> NetworkSession"
  services :: "(messaging_Service \<times> Mode \<times> Link) list"
  handlers :: "uuid_t \<rightharpoonup> Request"
  peers :: "Link list"
  timer :: timer_state
  ready :: "error_code list"
  steady_clock :: "nat \<Rightarrow> u64"
  reads :: nat
  log_lines :: "log_record list"

section \<open>Service\<close>

text \<open>
  \<^verbatim>\<open>link.net.lock()\<close>: the session the weak pointer refers to, if it is still
  alive, with its address.
\<close>

definition lock :: "Link \<Rightarrow> state \<Rightarrow> (nat \<times> NetworkSession) option" where
  "lock l st =
     (case net l of
        None \<Rightarrow> None
      | Some a \<Rightarrow> (case sessions st a of None \<Rightarrow> None | Some s \<Rightarrow> Some (a, s)))"

text \<open>
  Modelled from the spec: \<^verbatim>\<open>NetworkSession::write\<close> is not among the sources. The
  specification gives the transport's \<open>write(Envelope)\<close> as "queues and does not
  block", and has network-level errors "translated at the transport boundary into
  DOWN events [...] rather than as exceptions to catch per call site": the write
  appends to the session's queue and raises nothing.
\<close>

definition NetworkSession_write :: "BufferHandler \<Rightarrow> NetworkSession \<Rightarrow> exn + NetworkSession" where
  "NetworkSession_write fbb s = Inr (s @ [fbb])"

text \<open>The body of \<^verbatim>\<open>Service::send\<close>, inside its function-try-block.\<close>

definition send_body :: "Link \<Rightarrow> BufferHandler \<Rightarrow> state \<Rightarrow> exn + (Result \<times> state)" where
  "send_body l fbb st =
     (case lock l st of
        None \<Rightarrow> Inr (LINK_GONE, st)
      | Some (a, s) \<Rightarrow>
          (case NetworkSession_write fbb s of
             Inl e \<Rightarrow> Inl e
           | Inr s' \<Rightarrow> Inr (OK, st\<lparr>sessions := (sessions st)(a \<mapsto> s')\<rparr>)))"

text \<open>
  \<^verbatim>\<open>Service::send\<close>: the body, with \<^verbatim>\<open>catch(std::out_of_range)\<close> turned into
  \<^verbatim>\<open>Result::LINK_GONE\<close>; any other exception leaves the function.
\<close>

definition send :: "Link \<Rightarrow> BufferHandler \<Rightarrow> state \<Rightarrow> exn + (Result \<times> state)" where
  "send l fbb st =
     (case send_body l fbb st of
        Inl Out_of_range \<Rightarrow> Inr (LINK_GONE, st)
      | Inl e \<Rightarrow> Inl e
      | Inr r \<Rightarrow> Inr r)"




text \<open>
  Modelled from the spec: \<^verbatim>\<open>TrackingService::register_tracked\<close> is not among
  the sources. The specification's \<open>track(link, correlation_id, callback, timeout)\<close>
  "records a PendingRequest; the id must not already be pending (fails with
  DuplicateCorrelation otherwise)"; a failed call records nothing.
\<close>

definition register_tracked :: "Link \<Rightarrow> uuid_t \<Rightarrow> nat \<Rightarrow> nat \<Rightarrow> state \<Rightarrow> Result \<times> state" where
  "register_tracked l i callback secs st =
     (case handlers st i of
        Some _ \<Rightarrow> (DUPLICATE_CORRELATION, st)
      | None \<Rightarrow>
          (OK, st\<lparr>handlers := (handlers st)(i \<mapsto>
                 \<lparr>req_link = l, req_handler = callback, req_timeout = secs\<rparr>)\<rparr>))"

text \<open>
  \<^verbatim>\<open>Service::send_tracked(link, id, fbb, callback)\<close>: the registration is a
  statement of its own, so whatever it returns is dropped; the timeout it passes is
  \<^verbatim>\<open>std::chrono::seconds(5)\<close>; the function returns what \<^verbatim>\<open>send\<close> returns.
\<close>

definition send_tracked :: "Link \<Rightarrow> uuid_t \<Rightarrow> BufferHandler \<Rightarrow> nat \<Rightarrow> state \<Rightarrow> exn + (Result \<times> state)" where
  "send_tracked l i fbb callback st =
     (let (_, st1) = register_tracked l i callback 5 st
      in send l fbb st1)"

text \<open>
  Modelled from the spec: \<^verbatim>\<open>ServicesMap::peer_services\<close> is not among the
  sources. The specification's \<open>peers_of(service, role_filter)\<close> returns the links
  "matching service-type and role filter (CLIENT matches CLIENT and BOTH; SERVER
  matches SERVER and BOTH; BOTH matches all)", in order.
\<close>

fun mode_matches :: "Mode \<Rightarrow> Mode \<Rightarrow> bool" where
  "mode_matches BOTH r = True"
| "mode_matches CLIENT r = (r = CLIENT \<or> r = BOTH)"
| "mode_matches SERVER r = (r = SERVER \<or> r = BOTH)"

definition peer_services :: "(messaging_Service \<times> Mode \<times> Link) list \<Rightarrow> messaging_Service \<Rightarrow> Mode \<Rightarrow> Link list" where
  "peer_services reg svc mode =
     map (\<lambda>(s, r, l). l) (filter (\<lambda>(s, r, l). s = svc \<and> mode_matches mode r) reg)"

text \<open>
  The loop of \<^verbatim>\<open>Service::broadcast\<close>: lock each link's weak pointer, write when
  it locks, do nothing when it does not. There is no handler around the write here.
\<close>

fun broadcast_links :: "Link list \<Rightarrow> BufferHandler \<Rightarrow> state \<Rightarrow> exn + state" where
  "broadcast_links [] fbb st = Inr st"
| "broadcast_links (l # ls) fbb st =
     (case lock l st of
        Some (a, s) \<Rightarrow>
          (case NetworkSession_write fbb s of
             Inl e \<Rightarrow> Inl e
           | Inr s' \<Rightarrow> broadcast_links ls fbb (st\<lparr>sessions := (sessions st)(a \<mapsto> s')\<rparr>))
      | None \<Rightarrow> broadcast_links ls fbb st)"

definition broadcast :: "messaging_Service \<Rightarrow> Mode \<Rightarrow> BufferHandler \<Rightarrow> state \<Rightarrow> exn + (Result \<times> state)" where
  "broadcast svc mode fbb st =
     (let links = peer_services (services st) svc mode
      in case broadcast_links links fbb st of
           Inl e \<Rightarrow> Inl e
         | Inr st' \<Rightarrow> Inr (OK, st'))"

section \<open>CoreHandler\<close>

text \<open>
  \<^verbatim>\<open>sc::duration_cast<sc::milliseconds>(sc::steady_clock::now().time_since_epoch()).count()\<close>:
  takes the next reading of the clock. The count is a signed 64-bit value; where the
  source uses it (as the \<^verbatim>\<open>uint64\<close> field of a Ping, and in a subtraction with
  a \<^verbatim>\<open>std::uint64_t\<close>) it is converted to unsigned 64 bits, which keeps the bits.
\<close>

definition steady_clock_now :: "state \<Rightarrow> u64 \<times> state" where
  "steady_clock_now st = (steady_clock st (reads st), st\<lparr>reads := Suc (reads st)\<rparr>)"

text \<open>
  \<^verbatim>\<open>CoreHandler::set_timer\<close>: \<^verbatim>\<open>expires_from_now\<close> cancels a wait that is
  still pending (its handler is queued with \<^verbatim>\<open>operation_aborted\<close>), and
  \<^verbatim>\<open>async_wait\<close> starts the next one. The handler of every wait is
  \<^verbatim>\<open>trigger_pings\<close>.
\<close>

definition set_timer :: "state \<Rightarrow> state" where
  "set_timer st =
     st\<lparr>ready := ready st @ (if timer st = Waiting then [operation_aborted] else []),
        timer := Waiting\<rparr>"

text \<open>
  \<^verbatim>\<open>CoreHandler::shutdown\<close>: \<^verbatim>\<open>timer_.cancel()\<close> completes a pending wait
  with \<^verbatim>\<open>operation_aborted\<close> and does nothing when no wait is pending.
\<close>

definition CoreHandler_shutdown :: "state \<Rightarrow> state" where
  "CoreHandler_shutdown st =
     (if timer st = Waiting
      then st\<lparr>ready := ready st @ [operation_aborted], timer := Idle\<rparr>
      else st)"

text \<open>\<^verbatim>\<open>CoreHandler::handle_event\<close>: \<^verbatim>\<open>emplace_front\<close> on link-up, and otherwise
  \<^verbatim>\<open>remove\<close>, which erases every element that compares equal to the link.\<close>

definition handle_event :: "Link \<Rightarrow> LinkState \<Rightarrow> state \<Rightarrow> state" where
  "handle_event l s st =
     (if s = LINK_UP
      then st\<lparr>peers := l # peers st\<rparr>
      else st\<lparr>peers := filter (\<lambda>p. \<not> Link_eq p l) (peers st)\<rparr>)"

text \<open>\<^verbatim>\<open>CoreHandler::send_ping\<close> and \<^verbatim>\<open>send_pong\<close>: build the message and hand
  it to \<^verbatim>\<open>Service::send\<close>, whose result is dropped.\<close>

definition send_ping :: "Link \<Rightarrow> state \<Rightarrow> exn + state" where
  "send_ping l st =
     (let (time, st1) = steady_clock_now st;
          fbb = \<lparr>service = Service_Core, tracking_id = None, data = Data_Ping time\<rparr>
      in case send l fbb st1 of
           Inl e \<Rightarrow> Inl e
         | Inr (_, st2) \<Rightarrow> Inr st2)"

definition send_pong :: "Link \<Rightarrow> u64 \<Rightarrow> state \<Rightarrow> exn + state" where
  "send_pong l time st =
     (let fbb = \<lparr>service = Service_Core, tracking_id = None, data = Data_Pong time\<rparr>
      in case send l fbb st of
           Inl e \<Rightarrow> Inl e
         | Inr (_, st2) \<Rightarrow> Inr st2)"

text \<open>\<^verbatim>\<open>CoreHandler::handle_ping\<close>, called on a message whose data is a Ping.\<close>

definition handle_ping :: "Link \<Rightarrow> u64 \<Rightarrow> state \<Rightarrow> exn + state" where
  "handle_ping l timestamp st = send_pong l timestamp st"

text \<open>
  \<^verbatim>\<open>CoreHandler::handle_pong\<close>, called on a message whose data is a Pong: the
  clock is read first, and the difference is logged when the timestamp is not zero.
  Both operands are 64 bits wide and one is unsigned, so the subtraction is the
  unsigned one and wraps.
\<close>

definition handle_pong :: "Link \<Rightarrow> u64 \<Rightarrow> state \<Rightarrow> exn + state" where
  "handle_pong l timestamp st =
     (let (time, st1) = steady_clock_now st
      in if timestamp \<noteq> 0
         then Inr (st1\<lparr>log_lines := log_lines st1 @ [Debug_ping_time (time - timestamp)]\<rparr>)
         else Inr st1)"

text \<open>\<^verbatim>\<open>CoreHandler::handle_message\<close>: the switch on \<^verbatim>\<open>message->data_type()\<close>.\<close>

definition handle_message :: "Link \<Rightarrow> MessageRoot \<Rightarrow> state \<Rightarrow> exn + state" where
  "handle_message l message st =
     (case data message of
        Data_Ping t \<Rightarrow> handle_ping l t st
      | Data_Pong t \<Rightarrow> handle_pong l t st
      | Data_Other _ \<Rightarrow>
          Inr (st\<lparr>log_lines := log_lines st @ [Warn_unhandled_message (uuid l)]\<rparr>))"

text \<open>The loop of \<^verbatim>\<open>trigger_pings\<close> over \<^verbatim>\<open>peers_\<close>, front to back.\<close>

fun send_pings :: "Link list \<Rightarrow> state \<Rightarrow> exn + state" where
  "send_pings [] st = Inr st"
| "send_pings (l # ls) st =
     (case send_ping l st of
        Inl e \<Rightarrow> Inl e
      | Inr st' \<Rightarrow> send_pings ls st')"

text \<open>\<^verbatim>\<open>CoreHandler::trigger_pings\<close>: nothing when the error code is set, and
  otherwise a ping to each peer and then \<^verbatim>\<open>set_timer\<close>.\<close>

definition trigger_pings :: "error_code \<Rightarrow> state \<Rightarrow> exn + state" where
  "trigger_pings ec st =
     (if ec \<noteq> 0 then Inr st
      else case send_pings (peers st) st of
             Inl e \<Rightarrow> Inl e
           | Inr st' \<Rightarrow> Inr (set_timer st'))"

section \<open>Shutdown and the event loop\<close>

text \<open>
  Modelled from the spec: \<^verbatim>\<open>TrackingService::shutdown\<close>,
  \<^verbatim>\<open>Listener::shutdown\<close> and \<^verbatim>\<open>SessionManager::stop_all\<close> are not among the
  sources. By the specification, shutdown "signals TrackingService to resolve all
  pending requests as cancelled" and "tells all active sessions to stop", and a
  link's weak reference "becomes unresolvable exactly when the underlying Transport
  is torn down (peer disconnect, local shutdown, error)". The listener has no part
  in the state modelled here.
\<close>

definition TrackingService_shutdown :: "state \<Rightarrow> state" where
  "TrackingService_shutdown st = st\<lparr>handlers := Map.empty\<rparr>"

definition Listener_shutdown :: "state \<Rightarrow> state" where
  "Listener_shutdown st = st"

definition stop_all :: "state \<Rightarrow> state" where
  "stop_all st = st\<lparr>sessions := Map.empty\<rparr>"

text \<open>\<^verbatim>\<open>Service::shutdown\<close>: the log line, then the four calls in the source's order.\<close>

definition Service_shutdown :: "state \<Rightarrow> state" where
  "Service_shutdown st =
     (let st0 = st\<lparr>log_lines := log_lines st @ [Debug_shutting_down]\<rparr>;
          st1 = TrackingService_shutdown st0;
          st2 = CoreHandler_shutdown st1;
          st3 = Listener_shutdown st2
      in stop_all st3)"

text \<open>
  What the \<^verbatim>\<open>io_service\<close> does with the heartbeat timer between calls into the
  service:
  \<^item> \<open>Timer_expiry\<close>: the deadline of a pending wait passes; the wait completes with
    success and its handler is queued. Nothing happens when no wait is pending.
  \<^item> \<open>Run_handler\<close>: the oldest queued handler runs, which is a call of
    \<^verbatim>\<open>trigger_pings\<close> with the error code of its wait.
\<close>

datatype event = Timer_expiry | Run_handler

fun step :: "event \<Rightarrow> state \<Rightarrow> exn + state" where
  "step Timer_expiry st =
     (if timer st = Waiting
      then Inr (st\<lparr>ready := ready st @ [success], timer := Idle\<rparr>)
      else Inr st)"
| "step Run_handler st =
     (case ready st of
        [] \<Rightarrow> Inr st
      | ec # rest \<Rightarrow> trigger_pings ec (st\<lparr>ready := rest\<rparr>))"

fun run :: "event list \<Rightarrow> state \<Rightarrow> exn + state" where
  "run [] st = Inr st"
| "run (e # es) st =
     (case step e st of
        Inl x \<Rightarrow> Inl x
      | Inr st' \<Rightarrow> run es st')"

text \<open>A sequence of link events delivered to the heartbeat handler, oldest first.\<close>

fun handle_events :: "(Link \<times> LinkState) list \<Rightarrow> state \<Rightarrow> state" where
  "handle_events [] st = st"
| "handle_events ((l, s) # evs) st = handle_events evs (handle_event l s st)"

text \<open>The \<^verbatim>\<open>Result\<close> a call returned, if it returned.\<close>

definition result_of :: "exn + (Result \<times> state) \<Rightarrow> Result option" where
  "result_of r = (case r of Inl _ \<Rightarrow> None | Inr (res, _) \<Rightarrow> Some res)"

definition state_of :: "exn + (Result \<times> state) \<Rightarrow> state option" where
  "state_of r = (case r of Inl _ \<Rightarrow> None | Inr (_, st) \<Rightarrow> Some st)"

section \<open>Notions used to state the properties\<close>

text \<open>A link is tracked when some element of \<^verbatim>\<open>peers_\<close> compares equal to it.\<close>

definition tracked :: "Link \<Rightarrow> state \<Rightarrow> bool" where
  "tracked k st = list_ex (\<lambda>p. Link_eq p k) (peers st)"

text \<open>
  The specification's state machine for one peer, written from its words: "a Link
  is either tracked (UP) or not (no DOWN state retained)", an UP event "inserts
  into PeerSet", a DOWN event "removes it". \<open>spec_peer_up evs k up\<close> is whether link
  \<open>k\<close> is tracked after the events \<open>evs\<close> when it was tracked (\<open>up\<close>) or not before.
\<close>

fun spec_peer_up :: "(Link \<times> LinkState) list \<Rightarrow> Link \<Rightarrow> bool \<Rightarrow> bool" where
  "spec_peer_up [] k up = up"
| "spec_peer_up ((l, s) # evs) k up =
     spec_peer_up evs k (if Link_eq l k then s = LINK_UP else up)"

text \<open>The two heartbeat messages, as \<^verbatim>\<open>send_ping\<close> and \<^verbatim>\<open>send_pong\<close> build them.\<close>

definition Ping_message :: "u64 \<Rightarrow> MessageRoot" where
  "Ping_message t = \<lparr>service = Service_Core, tracking_id = None, data = Data_Ping t\<rparr>"

definition Pong_message :: "u64 \<Rightarrow> MessageRoot" where
  "Pong_message t = \<lparr>service = Service_Core, tracking_id = None, data = Data_Pong t\<rparr>"

text \<open>
  The Pings that one round over the peers \<open>ls\<close> hands to the session at address
  \<open>a\<close>, when the round starts at clock reading number \<open>r\<close>: the peer at position
  \<open>i\<close> is sent reading \<open>r + i\<close>, and the session receives those of the peers whose
  weak pointer refers to it, in order.
\<close>

definition pings_to :: "nat \<Rightarrow> (nat \<Rightarrow> u64) \<Rightarrow> nat \<Rightarrow> Link list \<Rightarrow> MessageRoot list" where
  "pings_to a clk r ls =
     map (\<lambda>(i, l). Ping_message (clk i)) (filter (\<lambda>(i, l). net l = Some a) (enumerate r ls))"

text \<open>How many handlers of the queue a sequence of loop events runs.\<close>

definition handler_runs :: "event list \<Rightarrow> nat" where
  "handler_runs es = length (filter (\<lambda>e. e = Run_handler) es)"

text \<open>
  The state right after the constructors have run: nothing is connected, and
  \<^verbatim>\<open>CoreHandler\<close>'s constructor has called \<^verbatim>\<open>set_timer\<close> on the fresh timer.
\<close>

definition constructed :: "(nat \<Rightarrow> u64) \<Rightarrow> state" where
  "constructed clk =
     set_timer
       \<lparr>sessions = Map.empty, services = [], handlers = Map.empty, peers = [],
        timer = Idle, ready = [], steady_clock = clk, reads = 0, log_lines = []\<rparr>"

text \<open>
  The timer and the queue of its completions fit together: while a wait is pending
  no completed expiry is queued, and otherwise at most one is.
\<close>

definition timer_consistent :: "state \<Rightarrow> bool" where
  "timer_consistent st =
     (length (filter (\<lambda>ec. ec = success) (ready st)) \<le> (if timer st = Waiting then 0 else 1))"

section \<open>A concrete state\<close>

text \<open>
  Two links: the session of the first is alive (address 1), the session of the
  second (address 2) has been torn down. Both are heartbeat peers and both are in the
  services map; one request, with id 7, is pending.
\<close>

definition link_alive :: Link where
  "link_alive = \<lparr>uuid = 1, description = ''realm'', net = Some 1\<rparr>"

definition link_torn_down :: Link where
  "link_torn_down = \<lparr>uuid = 2, description = ''login'', net = Some 2\<rparr>"

definition running :: state where
  "running =
     \<lparr>sessions = [1 \<mapsto> []],
      services = [(Service_Core, BOTH, link_alive), (Service_Core, SERVER, link_torn_down)],
      handlers = [7 \<mapsto> \<lparr>req_link = link_alive, req_handler = 0, req_timeout = 5\<rparr>],
      peers = [link_alive, link_torn_down],
      timer = Waiting,
      ready = [],
      steady_clock = (\<lambda>n. 1000 + word_of_nat n),
      reads = 0,
      log_lines = []\<rparr>"

section \<open>Basic facts\<close>

lemma NetworkSession_write_Inr [simp]: "NetworkSession_write fbb s = Inr (s @ [fbb])"
  by (simp add: NetworkSession_write_def)

lemma send_body_eq:
  "send_body l fbb st =
     Inr (case lock l st of
            None \<Rightarrow> (LINK_GONE, st)
          | Some (a, s) \<Rightarrow> (OK, st\<lparr>sessions := (sessions st)(a \<mapsto> s @ [fbb])\<rparr>))"
  by (simp add: send_body_def split: option.split)

lemma send_eq:
  "send l fbb st =
     Inr (case lock l st of
            None \<Rightarrow> (LINK_GONE, st)
          | Some (a, s) \<Rightarrow> (OK, st\<lparr>sessions := (sessions st)(a \<mapsto> s @ [fbb])\<rparr>))"
  by (simp add: send_def send_body_eq)

lemma lock_link_alive: "lock link_alive running = Some (1, [])"
  by (simp add: lock_def link_alive_def running_def)

lemma lock_link_torn_down: "lock link_torn_down running = None"
  by (simp add: lock_def link_torn_down_def running_def)

lemma handle_pong_eq:
  "handle_pong l t st =
     Inr (if t \<noteq> 0
          then st\<lparr>reads := Suc (reads st),
                  log_lines := log_lines st @ [Debug_ping_time (steady_clock st (reads st) - t)]\<rparr>
          else st\<lparr>reads := Suc (reads st)\<rparr>)"
  by (simp add: handle_pong_def steady_clock_now_def)

lemma lock_reads [simp]: "lock l (st\<lparr>reads := n\<rparr>) = lock l st"
  by (simp add: lock_def split: option.split)

lemma lock_Some_iff: "lock l st = Some (a, s) \<longleftrightarrow> net l = Some a \<and> sessions st a = Some s"
  by (auto simp: lock_def split: option.splits)

lemma lock_None_iff: "lock l st = None \<longleftrightarrow> (\<forall>a. net l = Some a \<longrightarrow> sessions st a = None)"
  by (auto simp: lock_def split: option.splits)

lemma handle_event_up: "handle_event l LINK_UP st = st\<lparr>peers := l # peers st\<rparr>"
  by (simp add: handle_event_def)

lemma handle_event_down:
  "handle_event l LINK_DOWN st = st\<lparr>peers := filter (\<lambda>p. \<not> Link_eq p l) (peers st)\<rparr>"
  by (simp add: handle_event_def)

lemma handle_event_only_peers: "handle_event l s st = st\<lparr>peers := peers (handle_event l s st)\<rparr>"
  by (simp add: handle_event_def)

lemma handle_events_only_peers: "handle_events evs st = st\<lparr>peers := peers (handle_events evs st)\<rparr>"
proof (induction evs arbitrary: st)
  case Nil
  show ?case by simp
next
  case (Cons ev evs)
  obtain l s where ev: "ev = (l, s)" by (cases ev)
  let ?st1 = "handle_event l s st"
  have "handle_events evs ?st1 = ?st1\<lparr>peers := peers (handle_events evs ?st1)\<rparr>"
    by (rule Cons.IH)
  also have "\<dots> = st\<lparr>peers := peers (handle_events evs ?st1)\<rparr>"
    by (simp add: handle_event_def)
  finally show ?case by (simp add: ev)
qed

lemma tracked_handle_event:
  "tracked k (handle_event l s st) = (if Link_eq l k then s = LINK_UP else tracked k st)"
  by (cases s) (auto simp: tracked_def handle_event_def Link_eq_def list_ex_iff)

lemma tracked_handle_events: "tracked k (handle_events evs st) = spec_peer_up evs k (tracked k st)"
  by (induction evs arbitrary: st) (auto simp: tracked_handle_event)

lemma filter_absent: "\<not> tracked l st \<Longrightarrow> filter (\<lambda>p. \<not> Link_eq p l) (peers st) = peers st"
  by (auto simp: tracked_def list_ex_iff filter_id_conv)

lemma broadcast_links_eq:
  "broadcast_links ls fbb st =
     Inr (st\<lparr>sessions := \<lambda>a. map_option
            (\<lambda>s. s @ replicate (length (filter (\<lambda>l. net l = Some a) ls)) fbb) (sessions st a)\<rparr>)"
proof (induction ls arbitrary: st)
  case Nil
  have "(\<lambda>a. map_option (\<lambda>s. s) (sessions st a)) = sessions st"
    by (rule ext) (simp add: option.map_ident)
  then show ?case by simp
next
  case (Cons l ls)
  show ?case
  proof (cases "lock l st")
    case None
    have "(\<lambda>a. map_option (\<lambda>s. s @ replicate (length (filter (\<lambda>l. net l = Some a) (l # ls))) fbb) (sessions st a))
        = (\<lambda>a. map_option (\<lambda>s. s @ replicate (length (filter (\<lambda>l. net l = Some a) ls)) fbb) (sessions st a))"
      using None by (auto simp: lock_None_iff)
    then show ?thesis using None by (simp add: Cons.IH)
  next
    case (Some p)
    obtain a s where p: "p = (a, s)" by (cases p)
    have l: "net l = Some a" "sessions st a = Some s"
      using Some p by (simp_all add: lock_Some_iff)
    let ?st1 = "st\<lparr>sessions := (sessions st)(a \<mapsto> s @ [fbb])\<rparr>"
    have "(\<lambda>b. map_option (\<lambda>s. s @ replicate (length (filter (\<lambda>l. net l = Some b) ls)) fbb) (sessions ?st1 b))
        = (\<lambda>b. map_option (\<lambda>s. s @ replicate (length (filter (\<lambda>l. net l = Some b) (l # ls))) fbb) (sessions st b))"
      using l by (auto)
    then show ?thesis using Some p by (simp add: Cons.IH)
  qed
qed

lemma send_ping_eq:
  "send_ping l st =
     Inr (case lock l st of
            None \<Rightarrow> st\<lparr>reads := Suc (reads st)\<rparr>
          | Some (a, s) \<Rightarrow>
              st\<lparr>reads := Suc (reads st),
                 sessions := (sessions st)(a \<mapsto> s @ [Ping_message (steady_clock st (reads st))])\<rparr>)"
  by (simp add: send_ping_def steady_clock_now_def send_eq Ping_message_def split: option.split)

lemma pings_to_Nil [simp]: "pings_to a clk r [] = []"
  by (simp add: pings_to_def)

lemma pings_to_Cons:
  "pings_to a clk r (l # ls) =
     (if net l = Some a then [Ping_message (clk r)] else []) @ pings_to a clk (Suc r) ls"
  by (simp add: pings_to_def)

lemma send_pings_eq:
  "send_pings ls st =
     Inr (st\<lparr>reads := reads st + length ls,
             sessions := \<lambda>a. map_option
               (\<lambda>s. s @ pings_to a (steady_clock st) (reads st) ls) (sessions st a)\<rparr>)"
proof (induction ls arbitrary: st)
  case Nil
  have "(\<lambda>a. map_option (\<lambda>s. s) (sessions st a)) = sessions st"
    by (rule ext) (simp add: option.map_ident)
  then show ?case by simp
next
  case (Cons l ls)
  show ?case
  proof (cases "lock l st")
    case None
    have "(\<lambda>a. map_option (\<lambda>s. s @ pings_to a (steady_clock st) (Suc (reads st)) ls) (sessions st a))
        = (\<lambda>a. map_option (\<lambda>s. s @ pings_to a (steady_clock st) (reads st) (l # ls)) (sessions st a))"
      using None by (auto simp: lock_None_iff pings_to_Cons)
    then show ?thesis using None by (simp add: send_ping_eq Cons.IH)
  next
    case (Some p)
    obtain a s where p: "p = (a, s)" by (cases p)
    have l: "net l = Some a" "sessions st a = Some s"
      using Some p by (simp_all add: lock_Some_iff)
    let ?m = "Ping_message (steady_clock st (reads st))"
    have "(\<lambda>b. map_option (\<lambda>s. s @ pings_to b (steady_clock st) (Suc (reads st)) ls)
                 (((sessions st)(a \<mapsto> s @ [?m])) b))
        = (\<lambda>b. map_option (\<lambda>s. s @ pings_to b (steady_clock st) (reads st) (l # ls)) (sessions st b))"
      using l by (auto simp: pings_to_Cons)
    then show ?thesis using Some p by (simp add: send_ping_eq Cons.IH)
  qed
qed


lemma set_timer_eq:
  "set_timer st =
     st\<lparr>ready := ready st @ (if timer st = Waiting then [operation_aborted] else []),
        timer := Waiting\<rparr>"
  by (simp add: set_timer_def)

lemma trigger_pings_success:
  "trigger_pings success st =
     Inr (st\<lparr>reads := reads st + length (peers st),
             sessions := \<lambda>a. map_option
               (\<lambda>s. s @ pings_to a (steady_clock st) (reads st) (peers st)) (sessions st a),
             ready := ready st @ (if timer st = Waiting then [operation_aborted] else []),
             timer := Waiting\<rparr>)"
  by (simp add: trigger_pings_def success_def send_pings_eq set_timer_def)

lemma trigger_pings_set: "ec \<noteq> success \<Longrightarrow> trigger_pings ec st = Inr st"
  by (simp add: trigger_pings_def success_def)

lemma aborted_not_success: "operation_aborted \<noteq> success"
  by (simp add: operation_aborted_def success_def)

lemma run_idle:
  "timer st = Idle \<Longrightarrow> list_all (\<lambda>ec. ec \<noteq> success) (ready st) \<Longrightarrow>
   run es st = Inr (st\<lparr>ready := drop (handler_runs es) (ready st)\<rparr>)"
proof (induction es arbitrary: st)
  case Nil
  show ?case by (simp add: handler_runs_def)
next
  case (Cons e es)
  show ?case
  proof (cases e)
    case Timer_expiry
    then show ?thesis
      using Cons.prems Cons.IH [of st] by (simp add: handler_runs_def)
  next
    case Run_handler
    show ?thesis
    proof (cases "ready st")
      case Nil
      then show ?thesis
        using Run_handler Cons.prems Cons.IH [of st] by (simp add: handler_runs_def)
    next
      case (Cons ec rest)
      let ?st1 = "st\<lparr>ready := rest\<rparr>"
      have ec: "ec \<noteq> success" and rest: "list_all (\<lambda>ec. ec \<noteq> success) (ready ?st1)"
        using Cons.prems(2) Cons by simp_all
      have "run es ?st1 = Inr (?st1\<lparr>ready := drop (handler_runs es) (ready ?st1)\<rparr>)"
        using Cons.prems(1) rest by (intro Cons.IH) simp_all
      then show ?thesis
        using Run_handler Cons ec by (simp add: trigger_pings_set handler_runs_def)
    qed
  qed
qed

lemma CoreHandler_shutdown_timer: "timer (CoreHandler_shutdown st) = Idle"
  by (cases "timer st") (simp_all add: CoreHandler_shutdown_def)

lemma CoreHandler_shutdown_ready:
  "list_all (\<lambda>ec. ec \<noteq> success) (ready st) \<Longrightarrow>
   list_all (\<lambda>ec. ec \<noteq> success) (ready (CoreHandler_shutdown st))"
  by (simp add: CoreHandler_shutdown_def aborted_not_success)

lemma Service_shutdown_timer: "timer (Service_shutdown st) = Idle"
  by (cases "timer st")
     (simp_all add: Service_shutdown_def stop_all_def Listener_shutdown_def Let_def
        CoreHandler_shutdown_def TrackingService_shutdown_def)

lemma Service_shutdown_ready:
  "list_all (\<lambda>ec. ec \<noteq> success) (ready st) \<Longrightarrow>
   list_all (\<lambda>ec. ec \<noteq> success) (ready (Service_shutdown st))"
  by (simp add: Service_shutdown_def stop_all_def Listener_shutdown_def Let_def
        CoreHandler_shutdown_def TrackingService_shutdown_def aborted_not_success)

lemma pings_running: "pings_to 1 (steady_clock running) 0 (peers running) = [Ping_message 1000]"
  by (simp add: pings_to_Cons running_def link_alive_def link_torn_down_def)

lemma lock_handlers [simp]: "lock l (st\<lparr>handlers := h\<rparr>) = lock l st"
  by (simp add: lock_def split: option.split)

lemma register_tracked_eq:
  "snd (register_tracked l i cb secs st) =
     (if handlers st i = None
      then st\<lparr>handlers := (handlers st)(i \<mapsto> \<lparr>req_link = l, req_handler = cb, req_timeout = secs\<rparr>)\<rparr>
      else st)"
  by (simp add: register_tracked_def split: option.split)

lemma lock_register_tracked [simp]: "lock l (snd (register_tracked k i cb secs st)) = lock l st"
  by (simp add: register_tracked_eq)

lemma send_tracked_eq:
  "send_tracked l i fbb cb st = send l fbb (snd (register_tracked l i cb 5 st))"
  by (simp add: send_tracked_def split: prod.split)

lemma peer_services_running:
  "peer_services (services running) Service_Core SERVER = [link_alive, link_torn_down]"
  "peer_services (services running) Service_Core CLIENT = [link_alive]"
  by (simp_all add: peer_services_def running_def)

lemma not_tracked_example: "\<not> tracked link_torn_down (running\<lparr>peers := [link_alive]\<rparr>)"
  by (simp add: tracked_def Link_eq_def link_alive_def link_torn_down_def)

section \<open>Service::send\<close>





section \<open>The heartbeat handler's messages\<close>

text \<open>
  Claim C4. On a Ping the handler makes exactly one call of \<open>send\<close>, with a Pong
  of the core service whose timestamp is the Ping's timestamp, unchanged, and its
  whole effect is the effect of that call. When the link's transport is alive, that
  is one message appended to the link's session and nothing else, so the handler
  keeps nothing about the peer; when the transport is already gone, the call
  returns \<open>LINK_GONE\<close>, which is dropped, and the state is as before.
\<close>

theorem handle_ping_replies_one_pong:
  assumes "data message = Data_Ping t"
  shows "(\<exists>r st'. send l (Pong_message t) st = Inr (r, st') \<and>
                 handle_message l message st = Inr st') \<and>
         (\<forall>a s. lock l st = Some (a, s) \<longrightarrow>
            handle_message l message st =
              Inr (st\<lparr>sessions := (sessions st)(a \<mapsto> s @ [Pong_message t])\<rparr>)) \<and>
         (lock l st = None \<longrightarrow> handle_message l message st = Inr st)"
  using assms
  by (cases "lock l st")
     (auto simp: handle_message_def handle_ping_def send_pong_def send_eq Pong_message_def)

theorem handle_ping_replies_one_pong_witness:
  "data (Ping_message 123456) = Data_Ping 123456 \<and>
   lock link_alive running = Some (1, []) \<and>
   handle_message link_alive (Ping_message 123456) running =
     Inr (running\<lparr>sessions := (sessions running)(1 \<mapsto> [] @ [Pong_message 123456])\<rparr>) \<and>
   lock link_torn_down running = None \<and>
   handle_message link_torn_down (Ping_message 123456) running = Inr running"
proof -
  have d: "data (Ping_message 123456) = Data_Ping 123456"
    by (simp add: Ping_message_def)
  show ?thesis
    using d lock_link_alive lock_link_torn_down
      handle_ping_replies_one_pong [OF d, of link_alive running]
      handle_ping_replies_one_pong [OF d, of link_torn_down running]
    by blast
qed

text \<open>
  Claim C8, amended. For a Pong whose echoed timestamp is not zero, the handler
  reads the clock once and logs the difference between that reading and the echoed
  timestamp (an unsigned 64-bit subtraction) as one debug line; nothing else in the
  state changes, so no history is kept. A Pong with timestamp zero is the subject of
  claim C10.
\<close>

theorem handle_pong_logs_elapsed:
  assumes "data message = Data_Pong t" and "t \<noteq> 0"
  shows "handle_message l message st =
           Inr (st\<lparr>reads := Suc (reads st),
                   log_lines := log_lines st @ [Debug_ping_time (steady_clock st (reads st) - t)]\<rparr>)"
  using assms by (simp add: handle_message_def handle_pong_eq)

theorem handle_pong_logs_elapsed_witness:
  "data (Pong_message 990) = Data_Pong 990 \<and> (990 :: u64) \<noteq> 0 \<and>
   handle_message link_alive (Pong_message 990) running =
     Inr (running\<lparr>reads := Suc (reads running),
                 log_lines := log_lines running @
                   [Debug_ping_time (steady_clock running (reads running) - 990)]\<rparr>) \<and>
   steady_clock running (reads running) - 990 = 10"
proof -
  have d: "data (Pong_message 990) = Data_Pong 990"
    by (simp add: Pong_message_def)
  have n: "(990 :: u64) \<noteq> 0"
    by simp
  have e: "steady_clock running (reads running) - 990 = 10"
    by (simp add: running_def)
  show ?thesis
    using d n e handle_pong_logs_elapsed [OF d n, of link_alive running]
    by simp
qed

text \<open>
  The claim as stated speaks of every incoming Pong. A Pong echoing timestamp zero
  is handled without any log line: the log of the resulting state is the log of the
  state before.
\<close>

theorem handle_pong_every_pong_counterexample:
  "data (Pong_message 0) = Data_Pong 0 \<and>
   handle_message link_alive (Pong_message 0) running = Inr (running\<lparr>reads := 1\<rparr>) \<and>
   log_lines (running\<lparr>reads := 1\<rparr>) = log_lines running \<and>
   log_lines running = []"
  by (simp add: handle_message_def handle_pong_eq Pong_message_def running_def)

text \<open>
  Claim C10. A Pong whose echoed timestamp is zero leaves the state as it was,
  except that the clock has been read once (the source reads it before it looks at
  the timestamp): no difference is computed, no line is logged, and the peers, the
  sessions, the timer and the pending requests are untouched.
\<close>

theorem handle_pong_zero_ignored:
  assumes "data message = Data_Pong 0"
  shows "handle_message l message st = Inr (st\<lparr>reads := Suc (reads st)\<rparr>)"
  using assms by (simp add: handle_message_def handle_pong_eq)

theorem handle_pong_zero_ignored_witness:
  "data (Pong_message 0) = Data_Pong 0 \<and>
   handle_message link_torn_down (Pong_message 0) running =
     Inr (running\<lparr>reads := Suc (reads running)\<rparr>)"
proof -
  have d: "data (Pong_message 0) = Data_Pong 0"
    by (simp add: Pong_message_def)
  show ?thesis
    using d handle_pong_zero_ignored [OF d, of link_torn_down running] by simp
qed

section \<open>The heartbeat timer\<close>

text \<open>
  \<open>timer_consistent\<close> holds once the service is constructed and is kept by
  every step of the event loop, by the handler's entry points and by shutdown. In
  such a state a pending wait means that no completed expiry is waiting to run.
\<close>

lemma timer_consistent_constructed: "timer_consistent (constructed clk)"
  by (simp add: timer_consistent_def constructed_def set_timer_def)

lemma timer_consistent_pending:
  "timer_consistent st \<Longrightarrow> timer st = Waiting \<Longrightarrow> list_all (\<lambda>ec. ec \<noteq> success) (ready st)"
  by (simp add: timer_consistent_def list_all_iff filter_empty_conv)

lemma timer_consistent_step:
  "timer_consistent st \<Longrightarrow> step e st = Inr st' \<Longrightarrow> timer_consistent st'"
proof (cases e)
  case Timer_expiry
  assume "timer_consistent st" "step e st = Inr st'"
  then show ?thesis
    using Timer_expiry
    by (cases "timer st") (auto simp: timer_consistent_def aborted_not_success)
next
  case Run_handler
  assume c: "timer_consistent st" and s: "step e st = Inr st'"
  show ?thesis
  proof (cases "ready st")
    case Nil
    then show ?thesis using c s Run_handler by simp
  next
    case (Cons ec rest)
    show ?thesis
    proof (cases "ec = success")
      case True
      then have "timer st = Idle" "filter (\<lambda>ec. ec = success) rest = []"
        using c Cons by (cases "timer st"; simp add: timer_consistent_def)+
      then show ?thesis
        using s Run_handler Cons True
        by (auto simp: trigger_pings_success timer_consistent_def)
    next
      case False
      then show ?thesis
        using c s Run_handler Cons
        by (auto simp: trigger_pings_set timer_consistent_def)
    qed
  qed
qed

lemma timer_consistent_run:
  "timer_consistent st \<Longrightarrow> run es st = Inr st' \<Longrightarrow> timer_consistent st'"
proof (induction es arbitrary: st)
  case Nil
  then show ?case by simp
next
  case (Cons e es)
  then show ?case
    by (cases "step e st") (auto dest: timer_consistent_step)
qed

lemma timer_consistent_handle_event: "timer_consistent st \<Longrightarrow> timer_consistent (handle_event l s st)"
  by (auto simp: timer_consistent_def handle_event_def split: if_splits)

lemma timer_consistent_handle_message:
  "timer_consistent st \<Longrightarrow> handle_message l m st = Inr st' \<Longrightarrow> timer_consistent st'"
  by (auto simp: timer_consistent_def handle_message_def handle_ping_def send_pong_def send_eq
        handle_pong_eq split: messaging_Data.splits option.splits if_splits)


lemma timer_consistent_shutdown:
  "timer_consistent st \<Longrightarrow> timer_consistent (CoreHandler_shutdown st)"
  "timer_consistent st \<Longrightarrow> timer_consistent (Service_shutdown st)"
  by (auto simp: timer_consistent_def CoreHandler_shutdown_def Service_shutdown_def stop_all_def
        Listener_shutdown_def TrackingService_shutdown_def Let_def aborted_not_success
      split: if_splits)

text \<open>
  What a firing does, and what follows a shutdown that found a wait to cancel. A
  firing of the timer with no error sends, to each peer in turn, a Ping carrying
  the clock reading taken at that moment (\<open>pings_to\<close> gives what each live
  session receives; a peer whose transport is gone gets a send that returns
  \<open>LINK_GONE\<close>, which is dropped), and then arms the timer again. A firing with
  its error code set, as after a cancellation, changes nothing: no Ping and no new
  wait. Both shutdown functions leave the timer idle. When no completed expiry is
  waiting to run at that moment, which is so whenever a wait is still pending
  (\<open>timer_consistent_pending\<close>), whatever the event loop does afterwards only
  drains the queue of aborted handlers: no clock reading, no message to any
  session, and the timer stays idle.
\<close>

lemma trigger_pings_fires_or_aborts:
  "trigger_pings success st =
     Inr (st\<lparr>reads := reads st + length (peers st),
             sessions := \<lambda>a. map_option
               (\<lambda>s. s @ pings_to a (steady_clock st) (reads st) (peers st)) (sessions st a),
             ready := ready st @ (if timer st = Waiting then [operation_aborted] else []),
             timer := Waiting\<rparr>) \<and>
   (ec \<noteq> success \<longrightarrow> trigger_pings ec st = Inr st) \<and>
   trigger_pings operation_aborted st = Inr st \<and>
   timer (CoreHandler_shutdown st) = Idle \<and>
   timer (Service_shutdown st) = Idle \<and>
   (list_all (\<lambda>ec. ec \<noteq> success) (ready st) \<longrightarrow>
      run es (CoreHandler_shutdown st) =
        Inr ((CoreHandler_shutdown st)
               \<lparr>ready := drop (handler_runs es) (ready (CoreHandler_shutdown st))\<rparr>) \<and>
      run es (Service_shutdown st) =
        Inr ((Service_shutdown st)
               \<lparr>ready := drop (handler_runs es) (ready (Service_shutdown st))\<rparr>))"
  using trigger_pings_success [of st] trigger_pings_set [of ec st]
    trigger_pings_set [OF aborted_not_success, of st]
    run_idle [OF CoreHandler_shutdown_timer CoreHandler_shutdown_ready, of st es]
    run_idle [OF Service_shutdown_timer Service_shutdown_ready, of st es]
    CoreHandler_shutdown_timer [of st] Service_shutdown_timer [of st]
  by blast

lemma trigger_pings_fires_or_aborts_example:
  "operation_aborted \<noteq> success \<and>
   trigger_pings operation_aborted running = Inr running \<and>
   list_all (\<lambda>ec. ec \<noteq> success) (ready running) \<and>
   (\<exists>st'. trigger_pings success running = Inr st' \<and>
          sessions st' 1 = Some [Ping_message 1000] \<and> sessions st' 2 = None \<and>
          reads st' = 2 \<and> timer st' = Waiting) \<and>
   (\<exists>st'. run [Timer_expiry, Run_handler, Run_handler, Timer_expiry] (CoreHandler_shutdown running) = Inr st' \<and>
          sessions st' 1 = Some [] \<and> reads st' = 0 \<and> timer st' = Idle \<and> ready st' = []) \<and>
   (\<exists>st'. run [Timer_expiry, Run_handler, Run_handler, Timer_expiry] (Service_shutdown running) = Inr st' \<and>
          reads st' = 0 \<and> timer st' = Idle \<and> ready st' = [])"
proof -
  have r: "list_all (\<lambda>ec. ec \<noteq> success) (ready running)"
    by (simp add: running_def)
  have n: "handler_runs [Timer_expiry, Run_handler, Run_handler, Timer_expiry] = 2"
    by (simp add: handler_runs_def)
  note t = trigger_pings_fires_or_aborts
             [of running operation_aborted "[Timer_expiry, Run_handler, Run_handler, Timer_expiry]"]
  have a: "trigger_pings operation_aborted running = Inr running"
    using t by blast
  have p: "\<exists>st'. trigger_pings success running = Inr st' \<and>
          sessions st' 1 = Some [Ping_message 1000] \<and> sessions st' 2 = None \<and>
          reads st' = 2 \<and> timer st' = Waiting"
    using t pings_running by (simp add: running_def)
  have c: "\<exists>st'. run [Timer_expiry, Run_handler, Run_handler, Timer_expiry] (CoreHandler_shutdown running) = Inr st' \<and>
          sessions st' 1 = Some [] \<and> reads st' = 0 \<and> timer st' = Idle \<and> ready st' = []"
    using t r n by (simp add: CoreHandler_shutdown_def running_def)
  have s: "\<exists>st'. run [Timer_expiry, Run_handler, Run_handler, Timer_expiry] (Service_shutdown running) = Inr st' \<and>
          reads st' = 0 \<and> timer st' = Idle \<and> ready st' = []"
    using t r n
    by (simp add: Service_shutdown_def stop_all_def Listener_shutdown_def Let_def
          CoreHandler_shutdown_def TrackingService_shutdown_def running_def)
  show ?thesis using aborted_not_success a r p c s by blast
qed

lemma timer_consistent_running: "timer_consistent running"
  by (simp add: timer_consistent_def running_def)

text \<open>
  Claim C5. The claim has no ping round issued once \<open>shutdown\<close> has cancelled
  the timer, and the specification requires that guarantee of \<open>shutdown\<close>. The
  code relies on the error code alone and misses one case. In the state
  \<open>running\<close> a wait is pending. Its deadline passes, so the wait completes with
  success and its handler is queued; then shutdown runs, and
  \<^verbatim>\<open>timer_.cancel()\<close> finds no wait to cancel; then the queued handler runs,
  with no error code. After \<^verbatim>\<open>CoreHandler::shutdown\<close> the live session
  receives a Ping and the timer is armed again; after \<^verbatim>\<open>Service::shutdown\<close>,
  which has also stopped the sessions, the round still reads the clock for both
  peers and arms the timer again, so rounds go on.
\<close>

theorem shutdown_after_expiry_still_pings:
  "timer_consistent running \<and> timer running = Waiting \<and>
   (\<exists>st1 st2 st3.
      run [Timer_expiry] running = Inr st1 \<and>
      run [Run_handler] (CoreHandler_shutdown st1) = Inr st2 \<and>
      sessions st2 1 = Some [Ping_message 1000] \<and> timer st2 = Waiting \<and>
      run [Run_handler] (Service_shutdown st1) = Inr st3 \<and>
      reads st3 = 2 \<and> timer st3 = Waiting)"
proof -
  have "timer running = Waiting"
    by (simp add: running_def)
  moreover have "\<exists>st1 st2 st3.
      run [Timer_expiry] running = Inr st1 \<and>
      run [Run_handler] (CoreHandler_shutdown st1) = Inr st2 \<and>
      sessions st2 1 = Some [Ping_message 1000] \<and> timer st2 = Waiting \<and>
      run [Run_handler] (Service_shutdown st1) = Inr st3 \<and>
      reads st3 = 2 \<and> timer st3 = Waiting"
    using pings_running
    by (simp add: Service_shutdown_def stop_all_def Listener_shutdown_def
          TrackingService_shutdown_def Let_def CoreHandler_shutdown_def
          trigger_pings_success running_def)
  ultimately show ?thesis
    using timer_consistent_running by blast
qed

section \<open>Service::send_tracked\<close>

text \<open>
  Claim C2. \<open>send_tracked\<close> first registers the request and then sends in the
  state the registration left. What it returns is what the inner \<open>send\<close>
  returns. The send does not touch the pending requests, so they are what the
  registration made them, also when the send fails: then the resulting state is
  exactly the state after the registration, and for an id that was not pending
  before, its entry (link, callback, five seconds) is in it.
\<close>

theorem send_tracked_registers_then_sends:
  "send_tracked l i fbb cb st = send l fbb (snd (register_tracked l i cb 5 st)) \<and>
   result_of (send_tracked l i fbb cb st) = result_of (send l fbb st) \<and>
   (\<exists>st'. send_tracked l i fbb cb st = Inr (if lock l st = None then LINK_GONE else OK, st') \<and>
          handlers st' = handlers (snd (register_tracked l i cb 5 st))) \<and>
   (lock l st = None \<longrightarrow>
      send_tracked l i fbb cb st = Inr (LINK_GONE, snd (register_tracked l i cb 5 st))) \<and>
   (lock l st = None \<and> handlers st i = None \<longrightarrow>
      send_tracked l i fbb cb st =
        Inr (LINK_GONE,
             st\<lparr>handlers := (handlers st)(i \<mapsto>
                  \<lparr>req_link = l, req_handler = cb, req_timeout = 5\<rparr>)\<rparr>))"
proof -
  let ?st1 = "snd (register_tracked l i cb 5 st)"
  have a: "send_tracked l i fbb cb st = send l fbb ?st1"
    by (rule send_tracked_eq)
  have b: "result_of (send l fbb ?st1) = result_of (send l fbb st)"
    by (simp add: send_eq result_of_def split: option.split)
  have c: "\<exists>st'. send l fbb ?st1 = Inr (if lock l st = None then LINK_GONE else OK, st') \<and>
          handlers st' = handlers ?st1"
    by (cases "lock l st") (auto simp: send_eq)
  have d: "lock l st = None \<Longrightarrow> send l fbb ?st1 = Inr (LINK_GONE, ?st1)"
    by (simp add: send_eq)
  have e: "lock l st = None \<Longrightarrow> handlers st i = None \<Longrightarrow>
      send l fbb ?st1 =
        Inr (LINK_GONE,
             st\<lparr>handlers := (handlers st)(i \<mapsto>
                  \<lparr>req_link = l, req_handler = cb, req_timeout = 5\<rparr>)\<rparr>)"
    by (simp add: send_eq register_tracked_eq)
  show ?thesis unfolding a using b c d e by blast
qed

theorem send_tracked_registers_then_sends_witness:
  "lock link_torn_down running = None \<and> handlers running 9 = None \<and>
   send_tracked link_torn_down 9 (Ping_message 0) 3 running =
     Inr (LINK_GONE,
          running\<lparr>handlers := (handlers running)(9 \<mapsto>
             \<lparr>req_link = link_torn_down, req_handler = 3, req_timeout = 5\<rparr>)\<rparr>)"
proof -
  have h: "handlers running 9 = None"
    by (simp add: running_def)
  show ?thesis
    using h lock_link_torn_down
      send_tracked_registers_then_sends [of link_torn_down 9 "Ping_message 0" 3 running]
    by blast
qed

text \<open>
  Claim C3, amended. \<open>send_tracked\<close> takes no timeout from its caller: a request
  that it registers gets the fixed timeout of five seconds. Its result is the
  result of the inner \<open>send\<close>, \<open>LINK_GONE\<close> when the link's weak pointer does not
  lock and \<open>OK\<close> otherwise, and never \<open>DUPLICATE_CORRELATION\<close>, whether or not
  the id is already pending.
\<close>

theorem send_tracked_fixed_timeout_inner_result:
  "result_of (send_tracked l i fbb cb st) = Some (if lock l st = None then LINK_GONE else OK) \<and>
   result_of (send_tracked l i fbb cb st) \<noteq> Some DUPLICATE_CORRELATION \<and>
   (\<exists>st'. state_of (send_tracked l i fbb cb st) = Some st' \<and>
          (handlers st i = None \<longrightarrow> map_option req_timeout (handlers st' i) = Some 5))"
  by (cases "lock l st")
     (auto simp: send_tracked_eq send_eq result_of_def state_of_def register_tracked_eq)

theorem send_tracked_fixed_timeout_inner_result_witness:
  "handlers running 9 = None \<and>
   (\<exists>st'. state_of (send_tracked link_alive 9 (Ping_message 0) 3 running) = Some st' \<and>
          map_option req_timeout (handlers st' 9) = Some 5) \<and>
   result_of (send_tracked link_alive 9 (Ping_message 0) 3 running) = Some OK"
proof -
  have h: "handlers running 9 = None"
    by (simp add: running_def)
  show ?thesis
    using h lock_link_alive
      send_tracked_fixed_timeout_inner_result [of link_alive 9 "Ping_message 0" 3 running]
    by auto
qed

text \<open>
  The claim as stated has \<open>send_tracked\<close> return \<open>DuplicateCorrelation\<close> for an
  id that is already pending. Id 7 is pending in the state \<open>running\<close>, and the
  call with that id on the live link returns \<open>OK\<close>.
\<close>

theorem send_tracked_duplicate_counterexample:
  "handlers running 7 = Some \<lparr>req_link = link_alive, req_handler = 0, req_timeout = 5\<rparr> \<and>
   result_of (send_tracked link_alive 7 (Ping_message 0) 3 running) = Some OK \<and>
   OK \<noteq> DUPLICATE_CORRELATION"
  using lock_link_alive
  by (simp add: send_tracked_eq send_eq result_of_def register_tracked_eq running_def)

section \<open>Service::broadcast\<close>

text \<open>
  Claim C6. \<open>broadcast\<close> returns \<open>OK\<close> in every state. Each live session
  receives the message once for every link of the snapshot whose weak pointer
  refers to it; a link whose weak pointer does not lock adds nothing, its session
  stays absent, and nothing but the sessions' queues changes.
\<close>

theorem broadcast_writes_resolvable_skips_gone:
  "broadcast svc mode fbb st =
     Inr (OK, st\<lparr>sessions := \<lambda>a. map_option
            (\<lambda>s. s @ replicate
                      (length (filter (\<lambda>l. net l = Some a) (peer_services (services st) svc mode)))
                      fbb)
            (sessions st a)\<rparr>) \<and>
   result_of (broadcast svc mode fbb st) = Some OK"
  by (simp add: broadcast_def broadcast_links_eq result_of_def)

theorem broadcast_writes_resolvable_skips_gone_witness:
  "peer_services (services running) Service_Core SERVER = [link_alive, link_torn_down] \<and>
   lock link_alive running = Some (1, []) \<and> lock link_torn_down running = None \<and>
   (\<exists>st'. broadcast Service_Core SERVER (Pong_message 1) running = Inr (OK, st') \<and>
          sessions st' 1 = Some [Pong_message 1] \<and> sessions st' 2 = None \<and>
          peers st' = peers running \<and> handlers st' = handlers running)"
  using broadcast_writes_resolvable_skips_gone [of Service_Core SERVER "Pong_message 1" running]
    peer_services_running lock_link_alive lock_link_torn_down
  by (simp add: running_def link_alive_def link_torn_down_def)

section \<open>The heartbeat handler's peers\<close>

text \<open>
  Claim C7. A link-up event puts the link at the front of the peers, after which it
  is tracked; a link-down event erases it, after which it is not tracked, and for a
  link that was not tracked the state stays as it was, so nothing records the down
  event. Over any sequence of events, whether a link is tracked follows the
  specification's two-state machine (\<open>spec_peer_up\<close>), and the peers are the only
  part of the state that the events change.
\<close>

theorem handle_event_tracks_membership:
  "handle_event l LINK_UP st = st\<lparr>peers := l # peers st\<rparr> \<and>
   tracked l (handle_event l LINK_UP st) \<and>
   handle_event l LINK_DOWN st = st\<lparr>peers := filter (\<lambda>p. \<not> Link_eq p l) (peers st)\<rparr> \<and>
   \<not> tracked l (handle_event l LINK_DOWN st) \<and>
   (\<not> tracked l st \<longrightarrow> handle_event l LINK_DOWN st = st) \<and>
   tracked k (handle_events evs st) = spec_peer_up evs k (tracked k st) \<and>
   handle_events evs st = st\<lparr>peers := peers (handle_events evs st)\<rparr>"
proof -
  have "Link_eq l l"
    by (simp add: Link_eq_def)
  then have a: "tracked l (handle_event l LINK_UP st)" "\<not> tracked l (handle_event l LINK_DOWN st)"
    by (simp_all add: tracked_handle_event)
  have b: "\<not> tracked l st \<Longrightarrow> handle_event l LINK_DOWN st = st"
    by (simp add: handle_event_down filter_absent)
  show ?thesis
    using a b handle_event_up [of l st] handle_event_down [of l st]
      tracked_handle_events [of k evs st] handle_events_only_peers [of evs st]
    by blast
qed

theorem handle_event_tracks_membership_witness:
  "\<not> tracked link_torn_down (running\<lparr>peers := [link_alive]\<rparr>) \<and>
   handle_event link_torn_down LINK_DOWN (running\<lparr>peers := [link_alive]\<rparr>) =
     running\<lparr>peers := [link_alive]\<rparr> \<and>
   tracked link_alive
     (handle_events [(link_torn_down, LINK_UP), (link_alive, LINK_DOWN), (link_alive, LINK_UP)]
        (running\<lparr>peers := [link_alive]\<rparr>)) \<and>
   \<not> tracked link_torn_down
     (handle_events [(link_torn_down, LINK_UP), (link_alive, LINK_UP), (link_torn_down, LINK_DOWN)]
        (running\<lparr>peers := [link_alive]\<rparr>))"
proof -
  let ?st = "running\<lparr>peers := [link_alive]\<rparr>"
  have e: "Link_eq link_alive link_alive" "Link_eq link_torn_down link_torn_down"
    "\<not> Link_eq link_alive link_torn_down" "\<not> Link_eq link_torn_down link_alive"
    by (simp_all add: Link_eq_def link_alive_def link_torn_down_def)
  have 1: "handle_event link_torn_down LINK_DOWN ?st = ?st"
    using handle_event_tracks_membership [of link_torn_down ?st] not_tracked_example by blast
  have "tracked link_alive
     (handle_events [(link_torn_down, LINK_UP), (link_alive, LINK_DOWN), (link_alive, LINK_UP)] ?st) =
     spec_peer_up [(link_torn_down, LINK_UP), (link_alive, LINK_DOWN), (link_alive, LINK_UP)]
       link_alive (tracked link_alive ?st)"
    using handle_event_tracks_membership [of link_alive ?st link_alive] by blast
  then have 2: "tracked link_alive
     (handle_events [(link_torn_down, LINK_UP), (link_alive, LINK_DOWN), (link_alive, LINK_UP)] ?st)"
    by (simp add: e)
  have "tracked link_torn_down
     (handle_events [(link_torn_down, LINK_UP), (link_alive, LINK_UP), (link_torn_down, LINK_DOWN)] ?st) =
     spec_peer_up [(link_torn_down, LINK_UP), (link_alive, LINK_UP), (link_torn_down, LINK_DOWN)]
       link_torn_down (tracked link_torn_down ?st)"
    using handle_event_tracks_membership [of link_alive ?st link_torn_down] by blast
  then have 3: "\<not> tracked link_torn_down
     (handle_events [(link_torn_down, LINK_UP), (link_alive, LINK_UP), (link_torn_down, LINK_DOWN)] ?st)"
    by (simp add: e)
  show ?thesis using not_tracked_example 1 2 3 by blast
qed

text \<open>
  Claim C9. Two link-up events for the same link store it twice. In the next round
  the link's session then receives two Pings, with two successive clock readings,
  ahead of the Pings for the peers stored before (there are none for this session
  when no earlier peer refers to it). One link-down event erases both copies, and
  every other element equal to the link.
\<close>

theorem duplicate_up_stores_link_twice:
  "peers (handle_event l LINK_UP (handle_event l LINK_UP st)) = l # l # peers st \<and>
   (\<forall>a s. lock l st = Some (a, s) \<longrightarrow>
      (\<exists>st'. trigger_pings success (handle_event l LINK_UP (handle_event l LINK_UP st)) = Inr st' \<and>
             sessions st' a =
               Some (s @ [Ping_message (steady_clock st (reads st)),
                          Ping_message (steady_clock st (Suc (reads st)))]
                       @ pings_to a (steady_clock st) (reads st + 2) (peers st)))) \<and>
   peers (handle_event l LINK_DOWN (handle_event l LINK_UP (handle_event l LINK_UP st))) =
     filter (\<lambda>p. \<not> Link_eq p l) (peers st) \<and>
   \<not> tracked l (handle_event l LINK_DOWN (handle_event l LINK_UP (handle_event l LINK_UP st)))"
proof -
  let ?st2 = "handle_event l LINK_UP (handle_event l LINK_UP st)"
  have st2: "?st2 = st\<lparr>peers := l # l # peers st\<rparr>"
    by (simp add: handle_event_up)
  have e: "Link_eq l l"
    by (simp add: Link_eq_def)
  have p: "\<And>a s. lock l st = Some (a, s) \<Longrightarrow>
      \<exists>st'. trigger_pings success ?st2 = Inr st' \<and>
             sessions st' a =
               Some (s @ [Ping_message (steady_clock st (reads st)),
                          Ping_message (steady_clock st (Suc (reads st)))]
                       @ pings_to a (steady_clock st) (reads st + 2) (peers st))"
    by (simp add: st2 trigger_pings_success lock_Some_iff pings_to_Cons)
  have d: "peers (handle_event l LINK_DOWN ?st2) = filter (\<lambda>p. \<not> Link_eq p l) (peers st)"
    using e by (simp add: st2 handle_event_down)
  have t: "\<not> tracked l (handle_event l LINK_DOWN ?st2)"
    using e by (simp add: tracked_handle_event)
  show ?thesis using st2 p d t by simp
qed

theorem duplicate_up_stores_link_twice_witness:
  "lock link_alive (running\<lparr>peers := []\<rparr>) = Some (1, []) \<and>
   peers (handle_event link_alive LINK_UP (handle_event link_alive LINK_UP (running\<lparr>peers := []\<rparr>))) =
     [link_alive, link_alive] \<and>
   (\<exists>st'. trigger_pings success
            (handle_event link_alive LINK_UP (handle_event link_alive LINK_UP (running\<lparr>peers := []\<rparr>))) =
            Inr st' \<and>
          sessions st' 1 = Some [Ping_message 1000, Ping_message 1001]) \<and>
   peers (handle_event link_alive LINK_DOWN
            (handle_event link_alive LINK_UP (handle_event link_alive LINK_UP (running\<lparr>peers := []\<rparr>)))) = []"
proof -
  let ?st = "running\<lparr>peers := []\<rparr>"
  have l: "lock link_alive ?st = Some (1, [])"
    by (simp add: lock_def link_alive_def running_def)
  have c: "steady_clock ?st (reads ?st) = 1000" "steady_clock ?st (Suc (reads ?st)) = 1001"
    "peers ?st = []"
    by (simp_all add: running_def)
  show ?thesis
    using l c duplicate_up_stores_link_twice [of link_alive ?st]
    by simp
qed

end
